theory Spec2Isabelle
  imports Complex_Main
begin

section \<open>The microphone hook of \<^verbatim>\<open>src/hooks/use-microphone.ts\<close>\<close>

text \<open>
  The hook keeps its session in mutable reference cells and reacts to four kinds of
  event: the caller's \<^verbatim>\<open>startRecording\<close> and \<^verbatim>\<open>stopRecording\<close>, the interval
  timer's tick, and the recorder's \<^verbatim>\<open>dataavailable\<close> and \<^verbatim>\<open>stop\<close> events. Each
  handler is a function from the cells to the cells. What the handlers do to the
  browser is kept beside the cells: the streams whose tracks are live, the audio
  contexts that are open, the interval timers that are set, and the list of calls made
  to the caller's callbacks.

  A JavaScript number that the caller supplies is a real number, an infinity or NaN;
  \<^verbatim>\<open>Math.round\<close>, \<^verbatim>\<open>Math.max\<close> and \<open>>=\<close> treat them as JavaScript does. Timestamps
  and measured levels are real numbers, and arithmetic on real numbers is exact. Each
  handler runs to completion before the next event, as on the browser's event loop; the
  continuation of \<^verbatim>\<open>cleanup().finally\<close> is run together with the \<^verbatim>\<open>stop\<close> handler that
  registers it. A callback reference that holds no function makes the optional call a
  no-op; the model records the call.
\<close>

subsection \<open>Data\<close>

text \<open>A JavaScript number, and the three operations of the hook on the constants.\<close>

datatype js_number = Finite real | PosInf | NegInf | NaN

text \<open>\<^verbatim>\<open>Math.round\<close> rounds a finite number half up, as \<^const>\<open>round\<close> does, and leaves the
  infinities and NaN.\<close>

fun Math_round :: "js_number \<Rightarrow> js_number" where
  "Math_round (Finite x) = Finite (of_int (round x))"
| "Math_round PosInf = PosInf"
| "Math_round NegInf = NegInf"
| "Math_round NaN = NaN"

text \<open>\<^verbatim>\<open>Math.max\<close> is NaN as soon as one argument is.\<close>

fun Math_max :: "js_number \<Rightarrow> js_number \<Rightarrow> js_number" where
  "Math_max NaN y = NaN"
| "Math_max x NaN = NaN"
| "Math_max PosInf y = PosInf"
| "Math_max x PosInf = PosInf"
| "Math_max NegInf y = y"
| "Math_max x NegInf = x"
| "Math_max (Finite a) (Finite b) = Finite (max a b)"

text \<open>\<open>x >= c\<close> for a real \<open>x\<close> and a constant \<open>c\<close>: false when \<open>c\<close> is NaN.\<close>

fun reaches :: "real \<Rightarrow> js_number \<Rightarrow> bool" where
  "reaches x (Finite c) = (c \<le> x)"
| "reaches x PosInf = False"
| "reaches x NegInf = True"
| "reaches x NaN = False"

text \<open>A \<^verbatim>\<open>Blob\<close>: its bytes and its MIME type. \<^verbatim>\<open>new Blob(parts, {type})\<close> concatenates the parts.\<close>

datatype blob = Blob (blob_bytes: "nat list") (blob_type: string)

definition size_blob :: "blob \<Rightarrow> nat" where
  "size_blob b = length (blob_bytes b)"

definition new_Blob :: "blob list \<Rightarrow> string \<Rightarrow> blob" where
  "new_Blob parts ty = Blob (concat (map blob_bytes parts)) ty"

text \<open>\<^verbatim>\<open>MediaRecorder.state\<close> and the two properties of the recorder the hook reads.\<close>

datatype recorder_state = inactive | recording | paused

record media_recorder =
  state :: recorder_state
  mimeType :: string

record analyser_node =
  fftSize :: nat
  smoothingTimeConstant :: real

text \<open>A thrown value, as \<^verbatim>\<open>getErrorMessage\<close> tells them apart.\<close>

datatype js_error = DOMException string | Error string | Thrown

datatype call =
    OnError string
  | OnRecordingChunk blob
  | OnRecordingComplete "blob option"
  | ResolveStop nat "blob option"

text \<open>The constants of lines 142 to 147, which the handlers of a session close over.\<close>

record config =
  maxDurationMs :: js_number
  minDurationMs :: js_number
  endSilenceMs :: js_number
  energyThreshold :: js_number
  sampleIntervalMs :: js_number
  timesliceMs :: js_number

text \<open>
  The reference cells and state of the hook, and beside them the browser's side: the
  streams with live tracks, the open audio contexts, the set interval timers, the
  constants that the interval callback set last closes over, and the calls made so far.
\<close>

record hook =
  supportsRecording :: bool
  isRecording :: bool
  mediaStreamRef :: "nat option"
  recorderRef :: "media_recorder option"
  analyserRef :: "analyser_node option"
  audioContextRef :: "nat option"
  monitorTimerRef :: "nat option"
  chunksRef :: "blob list"
  resolveStopRef :: "nat option"
  speechDetectedRef :: bool
  speechStartedAtRef :: real
  recordingStartedAtRef :: real
  lastVoiceAtRef :: real
  liveStreams :: "nat set"
  openContexts :: "nat set"
  activeTimers :: "nat set"
  sessionConfig :: "config option"
  calls :: "call list"

text \<open>The state of a mounted hook before any recording; \<open>b\<close> is the capability probe.\<close>

definition mounted :: "bool \<Rightarrow> hook" where
  "mounted b = \<lparr> supportsRecording = b, isRecording = False, mediaStreamRef = None,
     recorderRef = None, analyserRef = None, audioContextRef = None,
     monitorTimerRef = None, chunksRef = [], resolveStopRef = None,
     speechDetectedRef = False, speechStartedAtRef = 0, recordingStartedAtRef = 0,
     lastVoiceAtRef = 0, liveStreams = {}, openContexts = {}, activeTimers = {},
     sessionConfig = None, calls = [] \<rparr>"

record StartRecordingOptions =
  opt_maxDurationMs :: "js_number option"
  opt_minDurationMs :: "js_number option"
  opt_endSilenceMs :: "js_number option"
  opt_energyThreshold :: "js_number option"
  opt_sampleIntervalMs :: "js_number option"
  opt_timesliceMs :: "js_number option"

text \<open>
  What the browser answers during one call of \<^verbatim>\<open>startRecording\<close>: each step either
  throws (or rejects) or yields the identity of the object it made.
\<close>

record start_env =
  getUserMedia :: "js_error + nat"
  newAudioContext :: "js_error + nat"
  connectAnalyser :: "js_error option"
  newMediaRecorder :: "js_error + string"
  recorderStart :: "js_error option"
  performanceNow :: real
  setInterval :: nat

subsection \<open>Helpers\<close>

definition getErrorMessage :: "js_error \<Rightarrow> string" where
  "getErrorMessage error =
     (case error of
        DOMException m \<Rightarrow> if m \<noteq> [] then m else ''Unable to access your microphone.''
      | Error m \<Rightarrow> if m \<noteq> [] then m else ''Unable to access your microphone.''
      | Thrown \<Rightarrow> ''Unable to access your microphone.'')"

text \<open>\<open>??\<close> takes the default for an absent field, and only for an absent one.\<close>

definition nullish :: "'a option \<Rightarrow> 'a \<Rightarrow> 'a" where
  "nullish v d = (case v of None \<Rightarrow> d | Some x \<Rightarrow> x)"

definition opt_field ::
  "StartRecordingOptions option \<Rightarrow> (StartRecordingOptions \<Rightarrow> js_number option) \<Rightarrow> js_number option" where
  "opt_field options f = (case options of None \<Rightarrow> None | Some opts \<Rightarrow> f opts)"

text \<open>Lines 142 to 147 of \<^verbatim>\<open>startRecording\<close>.\<close>

definition effective_config :: "StartRecordingOptions option \<Rightarrow> config" where
  "effective_config options =
     \<lparr> maxDurationMs =
         Math_max (Finite 1000) (Math_round (nullish (opt_field options opt_maxDurationMs) (Finite 12000))),
       minDurationMs =
         Math_max (Finite 0) (Math_round (nullish (opt_field options opt_minDurationMs) (Finite 500))),
       endSilenceMs =
         Math_max (Finite 100) (Math_round (nullish (opt_field options opt_endSilenceMs) (Finite 600))),
       energyThreshold =
         Math_max (Finite 0.0001) (nullish (opt_field options opt_energyThreshold) (Finite 0.015)),
       sampleIntervalMs =
         Math_max (Finite 30) (Math_round (nullish (opt_field options opt_sampleIntervalMs) (Finite 100))),
       timesliceMs =
         Math_max (Finite 120) (Math_round (nullish (opt_field options opt_timesliceMs) (Finite 250))) \<rparr>"

definition clearMonitorTimer :: "hook \<Rightarrow> hook" where
  "clearMonitorTimer s =
     (case monitorTimerRef s of
        None \<Rightarrow> s
      | Some t \<Rightarrow> s\<lparr> activeTimers := activeTimers s - {t}, monitorTimerRef := None \<rparr>)"

definition cleanup :: "hook \<Rightarrow> hook" where
  "cleanup s =
     (let s1 = clearMonitorTimer s;
          s2 = (case mediaStreamRef s1 of
                  None \<Rightarrow> s1
                | Some stream \<Rightarrow> s1\<lparr> liveStreams := liveStreams s1 - {stream} \<rparr>);
          s3 = s2\<lparr> mediaStreamRef := None, recorderRef := None, analyserRef := None,
                   chunksRef := [], speechDetectedRef := False, speechStartedAtRef := 0,
                   recordingStartedAtRef := 0, lastVoiceAtRef := 0 \<rparr>
      in case audioContextRef s3 of
           None \<Rightarrow> s3
         | Some audioContext \<Rightarrow>
             s3\<lparr> audioContextRef := None, openContexts := openContexts s3 - {audioContext} \<rparr>)"

text \<open>
  \<^verbatim>\<open>computeRmsLevel\<close>: zero without an analyser, else the root mean square of the
  analyser's window, which the tick receives as \<open>rms\<close>.
\<close>

definition computeRmsLevel :: "hook \<Rightarrow> real \<Rightarrow> real" where
  "computeRmsLevel s rms = (case analyserRef s of None \<Rightarrow> 0 | Some analyser \<Rightarrow> rms)"

text \<open>\<^verbatim>\<open>recorder.stop()\<close> on the recorder in \<^verbatim>\<open>recorderRef\<close>: the state becomes inactive at
  once; the browser delivers the last \<^verbatim>\<open>dataavailable\<close> and the \<^verbatim>\<open>stop\<close> event later.\<close>

definition recorder_stop :: "hook \<Rightarrow> hook" where
  "recorder_stop s =
     s\<lparr> recorderRef := map_option (\<lambda>r. r\<lparr> state := inactive \<rparr>) (recorderRef s) \<rparr>"

subsection \<open>The recorder's handlers\<close>

text \<open>\<open>mime\<close> is \<^verbatim>\<open>recorder.mimeType\<close> of the recorder the handler was attached to.\<close>

definition ondataavailable :: "string \<Rightarrow> blob \<Rightarrow> hook \<Rightarrow> hook" where
  "ondataavailable mime data s =
     (if size_blob data > 0 then
        (let s1 = s\<lparr> chunksRef := chunksRef s @ [data] \<rparr>
         in if speechDetectedRef s1 then
              s1\<lparr> calls := calls s1 @
                    [OnRecordingChunk
                       (new_Blob (chunksRef s1) (if mime \<noteq> [] then mime else ''audio/webm''))] \<rparr>
            else s1)
      else s)"

definition onstop :: "string \<Rightarrow> hook \<Rightarrow> hook" where
  "onstop mime s =
     (let s1 = clearMonitorTimer (s\<lparr> isRecording := False \<rparr>);
          hasSpeech = speechDetectedRef s1;
          resolver = resolveStopRef s1;
          s2 = s1\<lparr> resolveStopRef := None \<rparr>;
          mimeType = (if mime \<noteq> [] then mime else ''audio/webm'');
          audioBlob = (if hasSpeech \<and> length (chunksRef s2) > 0
                       then Some (new_Blob (chunksRef s2) mimeType) else None);
          s3 = cleanup s2
      in s3\<lparr> calls := calls s3 @
                (case resolver of None \<Rightarrow> [] | Some p \<Rightarrow> [ResolveStop p audioBlob]) @
                [OnRecordingComplete audioBlob] \<rparr>)"

subsection \<open>The monitor tick\<close>

text \<open>The interval callback of one session; \<open>cfg\<close> holds the constants it closes over,
  \<open>now\<close> is \<^verbatim>\<open>performance.now()\<close>.\<close>

definition monitor_tick :: "config \<Rightarrow> real \<Rightarrow> real \<Rightarrow> hook \<Rightarrow> hook" where
  "monitor_tick cfg rms now s =
     (case recorderRef s of
        None \<Rightarrow> s
      | Some activeRecorder \<Rightarrow>
          if state activeRecorder \<noteq> recording then s
          else
            let level = computeRmsLevel s rms;
                recordingDurationMs = now - recordingStartedAtRef s
            in if reaches recordingDurationMs (maxDurationMs cfg) then recorder_stop s
               else if \<not> speechDetectedRef s then
                 (if reaches level (energyThreshold cfg)
                  then s\<lparr> speechDetectedRef := True, speechStartedAtRef := now,
                          lastVoiceAtRef := now \<rparr>
                  else s)
               else
                 let s1 = (if reaches level (energyThreshold cfg)
                           then s\<lparr> lastVoiceAtRef := now \<rparr> else s);
                     speechDurationMs = now - speechStartedAtRef s1;
                     silenceDurationMs = now - lastVoiceAtRef s1
                 in if reaches speechDurationMs (maxDurationMs cfg) then recorder_stop s1
                    else if reaches speechDurationMs (minDurationMs cfg)
                            \<and> reaches silenceDurationMs (endSilenceMs cfg)
                    then recorder_stop s1
                    else s1)"

subsection \<open>The caller's operations\<close>

text \<open>The \<^verbatim>\<open>catch\<close> branch of \<^verbatim>\<open>startRecording\<close>.\<close>

definition startRecording_catch :: "js_error \<Rightarrow> hook \<Rightarrow> bool \<times> hook" where
  "startRecording_catch error s =
     (let s1 = (cleanup s)\<lparr> isRecording := False \<rparr>
      in (False, s1\<lparr> calls := calls s1 @ [OnError (getErrorMessage error)] \<rparr>))"

text \<open>
  The rest of the \<^verbatim>\<open>try\<close> block once stream, audio context, analyser and recorder
  exist: the references are set, the recorder is started and the interval is set.
\<close>

definition startRecording_session ::
  "config \<Rightarrow> start_env \<Rightarrow> nat \<Rightarrow> nat \<Rightarrow> string \<Rightarrow> hook \<Rightarrow> bool \<times> hook" where
  "startRecording_session cfg env stream audioContext mime s =
     (let s3 = s\<lparr> mediaStreamRef := Some stream,
                   audioContextRef := Some audioContext,
                   analyserRef := Some \<lparr> fftSize = 2048, smoothingTimeConstant = 0.15 \<rparr>,
                   recorderRef := Some \<lparr> state = inactive, mimeType = mime \<rparr>,
                   chunksRef := [],
                   speechDetectedRef := False,
                   speechStartedAtRef := 0,
                   recordingStartedAtRef := performanceNow env,
                   lastVoiceAtRef := 0 \<rparr>
      in (case recorderStart env of
            Some error \<Rightarrow> startRecording_catch error s3
          | None \<Rightarrow>
              (True,
               s3\<lparr> recorderRef := Some \<lparr> state = recording, mimeType = mime \<rparr>,
                   isRecording := True,
                   monitorTimerRef := Some (setInterval env),
                   activeTimers := insert (setInterval env) (activeTimers s3),
                   sessionConfig := Some cfg \<rparr>)))"

definition startRecording :: "StartRecordingOptions option \<Rightarrow> start_env \<Rightarrow> hook \<Rightarrow> bool \<times> hook" where
  "startRecording options env s =
     (if \<not> supportsRecording s then
        (False, s\<lparr> calls := calls s @
                  [OnError ''Your browser does not support microphone recording.''] \<rparr>)
      else if (case recorderRef s of None \<Rightarrow> False
               | Some existingRecorder \<Rightarrow> state existingRecorder = recording)
      then (True, s)
      else
        (case getUserMedia env of
           Inl error \<Rightarrow> startRecording_catch error s
         | Inr stream \<Rightarrow>
             (let s1 = s\<lparr> liveStreams := insert stream (liveStreams s) \<rparr> in
              (case newAudioContext env of
                 Inl error \<Rightarrow> startRecording_catch error s1
               | Inr audioContext \<Rightarrow>
                   (let s2 = s1\<lparr> openContexts := insert audioContext (openContexts s1) \<rparr> in
                    (case connectAnalyser env of
                       Some error \<Rightarrow> startRecording_catch error s2
                     | None \<Rightarrow>
                         (case newMediaRecorder env of
                            Inl error \<Rightarrow> startRecording_catch error s2
                          | Inr mime \<Rightarrow>
                              startRecording_session (effective_config options) env stream
                                audioContext mime s2)))))))"

text \<open>\<open>p\<close> names the promise that this call of \<^verbatim>\<open>stopRecording\<close> returns.\<close>

definition stopRecording :: "nat \<Rightarrow> hook \<Rightarrow> hook" where
  "stopRecording p s =
     (if (case recorderRef s of None \<Rightarrow> True | Some recorder \<Rightarrow> state recorder \<noteq> recording)
      then
        (let s1 = (cleanup s)\<lparr> isRecording := False \<rparr>
         in s1\<lparr> calls := calls s1 @ [ResolveStop p None] \<rparr>)
      else recorder_stop (s\<lparr> resolveStopRef := Some p \<rparr>))"

text \<open>The cleanup function of the unmount effect.\<close>

definition unmount :: "hook \<Rightarrow> hook" where
  "unmount s =
     (if (case recorderRef s of None \<Rightarrow> False | Some recorder \<Rightarrow> state recorder = recording)
      then recorder_stop s
      else cleanup s)"

subsection \<open>Events\<close>

text \<open>
  What makes a handler run: a tick of the interval whose callback closes over the
  constants \<open>cfg\<close> (it carries the time first and the measured level second), a
  \<^verbatim>\<open>dataavailable\<close> or \<^verbatim>\<open>stop\<close> event of a recorder, and a call of
  \<^verbatim>\<open>stopRecording\<close>. The two handlers of a recorder are closures attached to the
  recorder itself: they run whenever the recorder fires the event, also after
  \<^verbatim>\<open>cleanup\<close> has emptied \<^verbatim>\<open>recorderRef\<close>. The event carries the \<^verbatim>\<open>mimeType\<close> of the
  recorder that fires it, which is all the handlers read of it.
\<close>

datatype event = Tick real real | DataAvailable string blob | StopEvent string | CallStop nat

fun step :: "config \<Rightarrow> hook \<Rightarrow> event \<Rightarrow> hook" where
  "step cfg s (Tick now rms) = monitor_tick cfg rms now s"
| "step cfg s (DataAvailable mime data) = ondataavailable mime data s"
| "step cfg s (StopEvent mime) = onstop mime s"
| "step cfg s (CallStop p) = stopRecording p s"

fun run :: "config \<Rightarrow> hook \<Rightarrow> event list \<Rightarrow> hook" where
  "run cfg s [] = s"
| "run cfg s (e # es) = run cfg (step cfg s e) es"

subsection \<open>Notions used to state the properties\<close>

text \<open>The test at the head of the tick, of \<^verbatim>\<open>startRecording\<close> and of \<^verbatim>\<open>stopRecording\<close>:
  a recorder is referenced and its state is \<^verbatim>\<open>"recording"\<close>.\<close>

definition recorder_active :: "hook \<Rightarrow> bool" where
  "recorder_active s = (case recorderRef s of None \<Rightarrow> False | Some r \<Rightarrow> state r = recording)"

text \<open>The states the hook can be in: mounted, then any sequence of calls and events.\<close>

inductive reachable :: "hook \<Rightarrow> bool" where
  reach_mounted: "reachable (mounted b)"
| reach_start: "reachable s \<Longrightarrow> reachable (snd (startRecording options env s))"
| reach_step: "reachable s \<Longrightarrow> reachable (step cfg s e)"
| reach_unmount: "reachable s \<Longrightarrow> reachable (unmount s)"

text \<open>A session that \<^verbatim>\<open>startRecording\<close> has just begun at time \<open>t0\<close> with the
  constants \<open>cfg\<close>.\<close>

definition session_started :: "config \<Rightarrow> real \<Rightarrow> hook \<Rightarrow> bool" where
  "session_started cfg t0 s =
     (sessionConfig s = Some cfg \<and> recorder_active s \<and> analyserRef s \<noteq> None
      \<and> chunksRef s = [] \<and> \<not> speechDetectedRef s
      \<and> speechStartedAtRef s = 0 \<and> lastVoiceAtRef s = 0 \<and> recordingStartedAtRef s = t0)"

text \<open>No reference holds anything and the session's cells are reset.\<close>

definition idle_refs :: "hook \<Rightarrow> bool" where
  "idle_refs s =
     (mediaStreamRef s = None \<and> recorderRef s = None \<and> analyserRef s = None
      \<and> audioContextRef s = None \<and> monitorTimerRef s = None \<and> chunksRef s = []
      \<and> \<not> speechDetectedRef s \<and> \<not> isRecording s)"

fun is_sample_or_data :: "event \<Rightarrow> bool" where
  "is_sample_or_data (Tick now rms) = True"
| "is_sample_or_data (DataAvailable m d) = True"
| "is_sample_or_data (StopEvent m) = False"
| "is_sample_or_data (CallStop p) = False"

text \<open>The events of a session up to its \<^verbatim>\<open>stop\<close> event, with no call of
  \<^verbatim>\<open>stopRecording\<close> once the recorder has been stopped: ticks and data in any order, and
  a call of \<^verbatim>\<open>stopRecording\<close> only while the recorder is recording.\<close>

fun well_timed :: "config \<Rightarrow> hook \<Rightarrow> event list \<Rightarrow> bool" where
  "well_timed cfg s [] = True"
| "well_timed cfg s (e # es) =
     ((case e of StopEvent m \<Rightarrow> False | CallStop p \<Rightarrow> recorder_active s | _ \<Rightarrow> True)
      \<and> well_timed cfg (step cfg s e) es)"

text \<open>The chunks the handler keeps (those with bytes), and all chunks delivered.\<close>

fun collected :: "event list \<Rightarrow> blob list" where
  "collected [] = []"
| "collected (DataAvailable m d # es) =
     (if size_blob d > 0 then d # collected es else collected es)"
| "collected (e # es) = collected es"

fun delivered :: "event list \<Rightarrow> blob list" where
  "delivered [] = []"
| "delivered (DataAvailable m d # es) = d # delivered es"
| "delivered (e # es) = delivered es"

text \<open>The samples of an event list, in order.\<close>

fun ticks_of :: "event list \<Rightarrow> (real \<times> real) list" where
  "ticks_of [] = []"
| "ticks_of (Tick now rms # es) = (now, rms) # ticks_of es"
| "ticks_of (e # es) = ticks_of es"

text \<open>Each tick comes at most \<open>iv\<close> after the one before it (after \<open>t\<close> for the first).\<close>

fun paced :: "real \<Rightarrow> real \<Rightarrow> event list \<Rightarrow> bool" where
  "paced iv t [] = True"
| "paced iv t (Tick now rms # es) = (now \<le> t + iv \<and> paced iv now es)"
| "paced iv t (e # es) = paced iv t es"

text \<open>What the voice activity detection reads and writes.\<close>

record vad =
  vad_recording :: bool
  vad_analyser :: bool
  vad_speechDetected :: bool
  vad_speechStartedAt :: real
  vad_lastVoiceAt :: real
  vad_recordingStartedAt :: real

definition vad_view :: "hook \<Rightarrow> vad" where
  "vad_view s = \<lparr> vad_recording = recorder_active s, vad_analyser = (analyserRef s \<noteq> None),
     vad_speechDetected = speechDetectedRef s, vad_speechStartedAt = speechStartedAtRef s,
     vad_lastVoiceAt = lastVoiceAtRef s, vad_recordingStartedAt = recordingStartedAtRef s \<rparr>"

text \<open>The view after each tick of a run.\<close>

fun vad_trace :: "config \<Rightarrow> hook \<Rightarrow> event list \<Rightarrow> vad list" where
  "vad_trace cfg s [] = []"
| "vad_trace cfg s (Tick now rms # es) =
     vad_view (step cfg s (Tick now rms)) # vad_trace cfg (step cfg s (Tick now rms)) es"
| "vad_trace cfg s (e # es) = vad_trace cfg (step cfg s e) es"

text \<open>The result handed to \<^verbatim>\<open>onRecordingComplete\<close>, if it has been called.\<close>

fun completions :: "call list \<Rightarrow> blob option list" where
  "completions [] = []"
| "completions (OnRecordingComplete b # cs) = b # completions cs"
| "completions (c # cs) = completions cs"

fun snapshots :: "call list \<Rightarrow> blob list" where
  "snapshots [] = []"
| "snapshots (OnRecordingChunk b # cs) = b # snapshots cs"
| "snapshots (c # cs) = snapshots cs"

text \<open>The calls made since the state \<open>s0\<close>.\<close>

definition calls_since :: "hook \<Rightarrow> hook \<Rightarrow> call list" where
  "calls_since s0 s = drop (length (calls s0)) (calls s)"

text \<open>\<^verbatim>\<open>recorder.mimeType || "audio/webm"\<close>.\<close>

definition mime_or_default :: "string \<Rightarrow> string" where
  "mime_or_default m = (if m \<noteq> [] then m else ''audio/webm'')"

text \<open>The result \<^verbatim>\<open>onstop\<close> of a recorder with type \<open>m\<close> computes in state \<open>s\<close>.\<close>

definition final_result :: "string \<Rightarrow> hook \<Rightarrow> blob option" where
  "final_result m s =
     (if speechDetectedRef s \<and> chunksRef s \<noteq> []
      then Some (new_Blob (chunksRef s) (mime_or_default m)) else None)"






text \<open>A browser in which every step of \<^verbatim>\<open>startRecording\<close> succeeds at time 0, and the
  session it starts with no options.\<close>

definition ok_env :: start_env where
  "ok_env = \<lparr> getUserMedia = Inr 1, newAudioContext = Inr 2, connectAnalyser = None,
     newMediaRecorder = Inr ''audio/webm'', recorderStart = None, performanceNow = 0,
     setInterval = 3 \<rparr>"

text \<open>A browser in which the stream and the audio context are made and the
  construction of the recorder throws.\<close>

definition encoder_fails_env :: start_env where
  "encoder_fails_env = \<lparr> getUserMedia = Inr 1, newAudioContext = Inr 2, connectAnalyser = None,
     newMediaRecorder = Inl (DOMException ''NotSupportedError''), recorderStart = None,
     performanceNow = 0, setInterval = 3 \<rparr>"

text \<open>A browser in which everything is made and \<^verbatim>\<open>recorder.start\<close> throws.\<close>

definition start_fails_env :: start_env where
  "start_fails_env = \<lparr> getUserMedia = Inr 1, newAudioContext = Inr 2, connectAnalyser = None,
     newMediaRecorder = Inr ''audio/webm'', recorderStart = Some (DOMException ''InvalidStateError''),
     performanceNow = 0, setInterval = 3 \<rparr>"

definition default_session :: hook where
  "default_session = snd (startRecording None ok_env (mounted True))"

text \<open>Options with a ceiling of one second and a tick every half second, their constants,
  and the session they start.\<close>

definition short_options :: StartRecordingOptions where
  "short_options = \<lparr> opt_maxDurationMs = Some (Finite 1000), opt_minDurationMs = None,
     opt_endSilenceMs = None, opt_energyThreshold = None,
     opt_sampleIntervalMs = Some (Finite 500), opt_timesliceMs = None \<rparr>"

definition short_config :: config where
  "short_config = effective_config (Some short_options)"

definition short_session :: hook where
  "short_session = snd (startRecording (Some short_options) ok_env (mounted True))"

text \<open>Options whose maximal duration is NaN, and the session they start.\<close>

definition nan_options :: StartRecordingOptions where
  "nan_options = \<lparr> opt_maxDurationMs = Some NaN, opt_minDurationMs = None,
     opt_endSilenceMs = None, opt_energyThreshold = None, opt_sampleIntervalMs = None,
     opt_timesliceMs = None \<rparr>"

definition nan_session :: hook where
  "nan_session = snd (startRecording (Some nan_options) ok_env (mounted True))"


text \<open>The hook after a call of \<^verbatim>\<open>startRecording\<close> in which the construction of the
  recorder threw.\<close>

definition after_failed_start :: hook where
  "after_failed_start = snd (startRecording None encoder_fails_env (mounted True))"


text \<open>The number of bytes in a list of chunks.\<close>

definition total_bytes :: "blob list \<Rightarrow> nat" where
  "total_bytes bs = length (concat (map blob_bytes bs))"

text \<open>The run that consists of the given samples only.\<close>

fun as_ticks :: "(real \<times> real) list \<Rightarrow> event list" where
  "as_ticks [] = []"
| "as_ticks ((now, rms) # ts) = Tick now rms # as_ticks ts"

section \<open>Properties\<close>

subsection \<open>What each operation leaves unchanged\<close>

lemma cleanup_eq:
  "cleanup s = s\<lparr> activeTimers := activeTimers s - set_option (monitorTimerRef s),
       monitorTimerRef := None,
       liveStreams := liveStreams s - set_option (mediaStreamRef s),
       mediaStreamRef := None, recorderRef := None, analyserRef := None,
       chunksRef := [], speechDetectedRef := False, speechStartedAtRef := 0,
       recordingStartedAtRef := 0, lastVoiceAtRef := 0,
       audioContextRef := None,
       openContexts := openContexts s - set_option (audioContextRef s) \<rparr>"
  by (cases "monitorTimerRef s"; cases "mediaStreamRef s"; cases "audioContextRef s")
     (simp_all add: cleanup_def clearMonitorTimer_def)

lemma default_session_eq:
  "default_session = \<lparr> supportsRecording = True, isRecording = True,
     mediaStreamRef = Some 1,
     recorderRef = Some \<lparr> state = recording, mimeType = ''audio/webm'' \<rparr>,
     analyserRef = Some \<lparr> fftSize = 2048, smoothingTimeConstant = 0.15 \<rparr>,
     audioContextRef = Some 2,
     monitorTimerRef = Some 3, chunksRef = [], resolveStopRef = None,
     speechDetectedRef = False, speechStartedAtRef = 0, recordingStartedAtRef = 0,
     lastVoiceAtRef = 0, liveStreams = {1}, openContexts = {2}, activeTimers = {3},
     sessionConfig = Some \<lparr> maxDurationMs = Finite 12000, minDurationMs = Finite 500,
       endSilenceMs = Finite 600, energyThreshold = Finite 0.015,
       sampleIntervalMs = Finite 100, timesliceMs = Finite 250 \<rparr>,
     calls = [] \<rparr>"
  by (simp add: default_session_def startRecording_def startRecording_session_def ok_env_def
        mounted_def effective_config_def opt_field_def nullish_def)

lemma supports_cleanup: "supportsRecording (cleanup s) = supportsRecording s"
  by (simp add: cleanup_eq)

lemma supports_catch: "supportsRecording (snd (startRecording_catch e s)) = supportsRecording s"
  by (simp add: startRecording_catch_def Let_def supports_cleanup)

lemma supports_session:
  "supportsRecording (snd (startRecording_session cfg env st ac m s)) = supportsRecording s"
  by (cases "recorderStart env")
     (simp_all add: startRecording_session_def Let_def supports_catch)

lemma supports_start: "supportsRecording (snd (startRecording options env s)) = supportsRecording s"
  by (simp add: startRecording_def Let_def supports_catch supports_session
           split: sum.split option.split)

lemma recorder_catch: "recorderRef (snd (startRecording_catch e s)) = None"
  by (simp add: startRecording_catch_def Let_def cleanup_eq)

lemma recorder_start:
  "\<not> supportsRecording s \<Longrightarrow> recorderRef (snd (startRecording options env s)) = recorderRef s"
  by (simp add: startRecording_def)

lemma supports_tick: "supportsRecording (monitor_tick cfg rms now s) = supportsRecording s"
  by (simp add: monitor_tick_def recorder_stop_def Let_def split: option.split)

lemma recorder_tick_None:
  "(recorderRef (monitor_tick cfg rms now s) = None) = (recorderRef s = None)"
  by (simp add: monitor_tick_def recorder_stop_def Let_def split: option.split)

lemma supports_data: "supportsRecording (ondataavailable m d s) = supportsRecording s"
  by (simp add: ondataavailable_def Let_def)

lemma recorder_data: "recorderRef (ondataavailable m d s) = recorderRef s"
  by (simp add: ondataavailable_def Let_def)

lemma supports_onstop: "supportsRecording (onstop m s) = supportsRecording s"
  by (simp add: onstop_def Let_def cleanup_eq clearMonitorTimer_def split: option.split)

lemma supports_stopRecording: "supportsRecording (stopRecording p s) = supportsRecording s"
  by (simp add: stopRecording_def Let_def cleanup_eq recorder_stop_def)

lemma recorder_stopRecording_None:
  "recorderRef (stopRecording p s) \<noteq> None \<Longrightarrow> recorderRef s \<noteq> None"
  by (cases "recorderRef s") (simp_all add: stopRecording_def Let_def cleanup_eq recorder_stop_def)

lemma recorder_onstop: "recorderRef (onstop m s) = None"
  by (simp add: onstop_def Let_def cleanup_eq)

lemma supports_step: "supportsRecording (step cfg s e) = supportsRecording s"
  by (cases e)
     (simp_all add: supports_tick supports_data supports_onstop supports_stopRecording)

lemma recorder_step: "recorderRef (step cfg s e) \<noteq> None \<Longrightarrow> recorderRef s \<noteq> None"
  by (cases e; cases "recorderRef s")
     (simp_all add: stopRecording_def cleanup_eq Let_def recorder_tick_None recorder_data
        recorder_onstop)

lemma supports_unmount: "supportsRecording (unmount s) = supportsRecording s"
  by (simp add: unmount_def cleanup_eq recorder_stop_def)

lemma recorder_unmount: "recorderRef (unmount s) \<noteq> None \<Longrightarrow> recorderRef s \<noteq> None"
  by (cases "recorderRef s") (simp_all add: unmount_def cleanup_eq recorder_stop_def)

lemma reachable_supports:
  "reachable s \<Longrightarrow> recorderRef s \<noteq> None \<Longrightarrow> supportsRecording s"
proof (induction rule: reachable.induct)
  case (reach_mounted b)
  then show ?case by (simp add: mounted_def)
next
  case (reach_start s options env)
  then show ?case using recorder_start[of s options env]
    by (cases "supportsRecording s") (simp_all add: supports_start)
next
  case (reach_step s cfg e)
  then show ?case using recorder_step[of cfg s e] by (simp add: supports_step)
next
  case (reach_unmount s)
  then show ?case using recorder_unmount[of s] by (simp add: supports_unmount)
qed

subsection \<open>Starting while a session is active\<close>

text \<open>
  Claim C6. In every state the hook can reach in which a recorder is referenced and is
  recording, \<^verbatim>\<open>startRecording\<close> returns true and changes nothing: no reference, no
  stream, audio context or timer, and no call to a callback.
\<close>

theorem startRecording_idempotent:
  assumes "reachable s" and "recorderRef s = Some r" and "state r = recording"
  shows "startRecording options env s = (True, s)"
proof -
  have "supportsRecording s" using assms reachable_supports by simp
  with assms show ?thesis by (simp add: startRecording_def)
qed

text \<open>The theorem at the session started with no options.\<close>

lemma reachable_default_session: "reachable default_session"
  unfolding default_session_def by (rule reach_start) (rule reach_mounted)

theorem startRecording_idempotent_witness:
  "reachable default_session
   \<and> recorderRef default_session = Some \<lparr> state = recording, mimeType = ''audio/webm'' \<rparr>
   \<and> state \<lparr> state = recording, mimeType = ''audio/webm'' \<rparr> = recording
   \<and> startRecording None ok_env default_session = (True, default_session)"
proof -
  have r: "reachable default_session" by (rule reachable_default_session)
  have q: "recorderRef default_session = Some \<lparr> state = recording, mimeType = ''audio/webm'' \<rparr>"
    by (simp add: default_session_eq)
  have st: "state \<lparr> state = recording, mimeType = ''audio/webm'' \<rparr> = recording" by simp
  show ?thesis using r q st startRecording_idempotent [OF r q st, of None ok_env] by simp
qed


subsection \<open>The effective configuration\<close>








lemma default_config:
  "effective_config None =
     \<lparr> maxDurationMs = Finite 12000, minDurationMs = Finite 500, endSilenceMs = Finite 600,
       energyThreshold = Finite 0.015, sampleIntervalMs = Finite 100,
       timesliceMs = Finite 250 \<rparr>"
  by (simp add: effective_config_def opt_field_def nullish_def)




subsection \<open>Stopping while no session is active\<close>

text \<open>When no recorder is referenced, or the referenced recorder is not recording,
  \<^verbatim>\<open>stopRecording\<close> resolves its promise with no blob at once and leaves
  \<^verbatim>\<open>resolveStopRef\<close> as it was; it acquires nothing and releases what the references
  hold: that stream's tracks are stopped, that audio context is closed, that timer is
  cleared, and every reference is reset.\<close>

lemma stopRecording_idle:
  assumes "\<not> recorder_active s"
  shows "calls (stopRecording p s) = calls s @ [ResolveStop p None]
    \<and> resolveStopRef (stopRecording p s) = resolveStopRef s
    \<and> idle_refs (stopRecording p s)
    \<and> liveStreams (stopRecording p s) = liveStreams s - set_option (mediaStreamRef s)
    \<and> openContexts (stopRecording p s) = openContexts s - set_option (audioContextRef s)
    \<and> activeTimers (stopRecording p s) = activeTimers s - set_option (monitorTimerRef s)"
proof -
  from assms have "stopRecording p s =
      (cleanup s)\<lparr> isRecording := False, calls := calls s @ [ResolveStop p None] \<rparr>"
    by (cases "recorderRef s")
       (simp_all add: recorder_active_def stopRecording_def Let_def cleanup_eq)
  then show ?thesis by (simp add: cleanup_eq idle_refs_def)
qed

text \<open>
  Claim C9 says that \<^verbatim>\<open>stopRecording\<close> with no active session still tears down anything
  partially allocated. It releases only what the references hold. After a call of
  \<^verbatim>\<open>startRecording\<close> in which the constructor of the recorder threw, no recorder records,
  the stream acquired is live and the audio context made is open, and no reference holds
  them: \<^verbatim>\<open>stopRecording\<close> then resolves with no blob, acquires nothing, and leaves the
  stream live and the audio context open.
\<close>

theorem stopRecording_after_failed_start_leaks:
  "\<not> recorder_active after_failed_start
   \<and> liveStreams after_failed_start = {1}
   \<and> openContexts after_failed_start = {2}
   \<and> calls (stopRecording 7 after_failed_start)
       = calls after_failed_start @ [ResolveStop 7 None]
   \<and> idle_refs (stopRecording 7 after_failed_start)
   \<and> liveStreams (stopRecording 7 after_failed_start) = {1}
   \<and> openContexts (stopRecording 7 after_failed_start) = {2}"
  by (simp add: after_failed_start_def startRecording_def encoder_fails_env_def mounted_def
        startRecording_catch_def stopRecording_def recorder_active_def cleanup_eq
        getErrorMessage_def idle_refs_def Let_def)

subsection \<open>Failure inside \<^verbatim>\<open>startRecording\<close>\<close>

lemma catch_result:
  "startRecording_catch e s =
     (False, (cleanup s)\<lparr> isRecording := False,
                calls := calls s @ [OnError (getErrorMessage e)] \<rparr>)"
  by (simp add: startRecording_catch_def Let_def cleanup_eq)

lemma startRecording_failure:
  assumes "supportsRecording s" and "fst (startRecording options env s) = False"
  shows "idle_refs (snd (startRecording options env s))
    \<and> (\<exists>m. calls (snd (startRecording options env s)) = calls s @ [OnError m])"
  using assms
  by (auto simp: startRecording_def startRecording_session_def catch_result cleanup_eq
        idle_refs_def Let_def split: if_splits sum.splits option.splits)

lemma startRecording_acquisition_failure:
  assumes "supportsRecording s" and "\<not> recorder_active s" and "getUserMedia env = Inl e"
  shows "startRecording options env s =
     (False, (cleanup s)\<lparr> isRecording := False,
                calls := calls s @ [OnError (getErrorMessage e)] \<rparr>)"
  using assms
  by (cases "recorderRef s") (simp_all add: startRecording_def catch_result recorder_active_def)

text \<open>When \<^verbatim>\<open>recorder.start\<close> throws, the references are already set and the
  \<^verbatim>\<open>catch\<close> branch releases the stream and the audio context.\<close>

lemma startRecording_start_failure_releases:
  "startRecording None start_fails_env (mounted True) =
     (False, (mounted True)\<lparr> calls := [OnError ''InvalidStateError''] \<rparr>)"
  by (simp add: startRecording_def start_fails_env_def mounted_def startRecording_session_def
        catch_result cleanup_eq getErrorMessage_def Let_def)

text \<open>
  Claim C5 says that after any failure of device acquisition, analyser construction or
  encoder construction nothing is left allocated. The \<^verbatim>\<open>catch\<close> branch releases what
  the references hold, and the references are set only after the recorder is made: when
  the constructor of the recorder throws, \<^verbatim>\<open>startRecording\<close> returns false, reports
  once and leaves every reference empty, and the stream it acquired is still live and the
  audio context it made is still open.
\<close>

theorem startRecording_encoder_failure_leaks:
  "fst (startRecording None encoder_fails_env (mounted True)) = False
   \<and> calls (snd (startRecording None encoder_fails_env (mounted True)))
       = [OnError ''NotSupportedError'']
   \<and> idle_refs (snd (startRecording None encoder_fails_env (mounted True)))
   \<and> liveStreams (snd (startRecording None encoder_fails_env (mounted True))) = {1}
   \<and> openContexts (snd (startRecording None encoder_fails_env (mounted True))) = {2}"
  by (simp add: startRecording_def encoder_fails_env_def mounted_def startRecording_catch_def
        cleanup_eq getErrorMessage_def idle_refs_def Let_def)

subsection \<open>One event\<close>

lemma tick_inactive: "\<not> recorder_active s \<Longrightarrow> monitor_tick cfg rms now s = s"
  by (cases "recorderRef s") (simp_all add: recorder_active_def monitor_tick_def)

lemma tick_frame:
  "chunksRef (monitor_tick cfg rms now s) = chunksRef s"
  "calls (monitor_tick cfg rms now s) = calls s"
  "resolveStopRef (monitor_tick cfg rms now s) = resolveStopRef s"
  "analyserRef (monitor_tick cfg rms now s) = analyserRef s"
  "recordingStartedAtRef (monitor_tick cfg rms now s) = recordingStartedAtRef s"
  by (simp_all add: monitor_tick_def recorder_stop_def Let_def split: option.split)

lemma tick_speech_mono:
  "speechDetectedRef s \<Longrightarrow> speechDetectedRef (monitor_tick cfg rms now s)"
  by (simp add: monitor_tick_def recorder_stop_def Let_def split: option.split)

lemma tick_active_back:
  "recorder_active (monitor_tick cfg rms now s) \<Longrightarrow> recorder_active s"
  using tick_inactive[of s cfg rms now] by (cases "recorder_active s") simp_all

lemma tick_ceiling:
  "recorder_active s \<Longrightarrow> reaches (now - recordingStartedAtRef s) (maxDurationMs cfg)
     \<Longrightarrow> monitor_tick cfg rms now s = recorder_stop s"
  by (cases "recorderRef s") (simp_all add: recorder_active_def monitor_tick_def Let_def)

lemma stop_inactive: "\<not> recorder_active (recorder_stop s)"
  by (cases "recorderRef s") (simp_all add: recorder_active_def recorder_stop_def)

lemma tick_ceiling_inactive:
  "reaches (now - recordingStartedAtRef s) (maxDurationMs cfg)
     \<Longrightarrow> \<not> recorder_active (monitor_tick cfg rms now s)"
  by (cases "recorder_active s") (simp_all add: tick_ceiling stop_inactive tick_inactive)

lemma tick_awaiting:
  "recorder_active s \<Longrightarrow> \<not> speechDetectedRef s \<Longrightarrow> analyserRef s \<noteq> None
     \<Longrightarrow> \<not> reaches (now - recordingStartedAtRef s) (maxDurationMs cfg)
     \<Longrightarrow> monitor_tick cfg rms now s =
           (if reaches rms (energyThreshold cfg)
            then s\<lparr> speechDetectedRef := True, speechStartedAtRef := now,
                    lastVoiceAtRef := now \<rparr>
            else s)"
  by (cases "recorderRef s"; cases "analyserRef s")
     (simp_all add: recorder_active_def monitor_tick_def computeRmsLevel_def Let_def)


lemma data_frame:
  "recorderRef (ondataavailable m d s) = recorderRef s"
  "resolveStopRef (ondataavailable m d s) = resolveStopRef s"
  "analyserRef (ondataavailable m d s) = analyserRef s"
  "recordingStartedAtRef (ondataavailable m d s) = recordingStartedAtRef s"
  "speechDetectedRef (ondataavailable m d s) = speechDetectedRef s"
  "speechStartedAtRef (ondataavailable m d s) = speechStartedAtRef s"
  "lastVoiceAtRef (ondataavailable m d s) = lastVoiceAtRef s"
  "chunksRef (ondataavailable m d s) = chunksRef s @ (if size_blob d > 0 then [d] else [])"
  by (simp_all add: ondataavailable_def Let_def)

lemma data_calls:
  "calls (ondataavailable m d s) = calls s @
     (if size_blob d > 0 \<and> speechDetectedRef s
      then [OnRecordingChunk (new_Blob (chunksRef s @ [d]) (mime_or_default m))]
      else [])"
  by (simp add: ondataavailable_def mime_or_default_def Let_def)

lemma data_active: "recorder_active (ondataavailable m d s) = recorder_active s"
  by (simp add: recorder_active_def data_frame)

lemma resolve_active: "recorder_active (s\<lparr> resolveStopRef := x \<rparr>) = recorder_active s"
  by (simp add: recorder_active_def)

lemma data_view: "vad_view (ondataavailable m d s) = vad_view s"
  by (simp add: vad_view_def recorder_active_def data_frame)

lemma data_calls_silent:
  "\<not> speechDetectedRef s \<Longrightarrow> calls (ondataavailable m d s) = calls s"
  by (simp add: data_calls)

lemma callstop_active:
  "recorder_active s \<Longrightarrow> stopRecording p s = recorder_stop (s\<lparr> resolveStopRef := Some p \<rparr>)"
  by (cases "recorderRef s") (simp_all add: recorder_active_def stopRecording_def)

lemma stop_frame:
  "chunksRef (recorder_stop s) = chunksRef s"
  "calls (recorder_stop s) = calls s"
  "resolveStopRef (recorder_stop s) = resolveStopRef s"
  "analyserRef (recorder_stop s) = analyserRef s"
  "recordingStartedAtRef (recorder_stop s) = recordingStartedAtRef s"
  "speechDetectedRef (recorder_stop s) = speechDetectedRef s"
  "(recorderRef (recorder_stop s) = None) = (recorderRef s = None)"
  by (simp_all add: recorder_stop_def)

lemma vad_tick_cong:
  assumes "vad_view s = vad_view t"
  shows "vad_view (monitor_tick cfg rms now s) = vad_view (monitor_tick cfg rms now t)"
proof (cases "recorder_active s")
  case False
  with assms have "\<not> recorder_active t" by (simp add: vad_view_def)
  with False assms show ?thesis by (simp add: tick_inactive)
next
  case True
  with assms have t: "recorder_active t" by (simp add: vad_view_def)
  obtain r where r: "recorderRef s = Some r" "state r = recording"
    using True by (cases "recorderRef s") (simp_all add: recorder_active_def)
  obtain q where q: "recorderRef t = Some q" "state q = recording"
    using t by (cases "recorderRef t") (simp_all add: recorder_active_def)
  from assms have eqs: "(analyserRef s = None) = (analyserRef t = None)"
    "speechDetectedRef s = speechDetectedRef t" "speechStartedAtRef s = speechStartedAtRef t"
    "lastVoiceAtRef s = lastVoiceAtRef t" "recordingStartedAtRef s = recordingStartedAtRef t"
    by (auto simp: vad_view_def)
  have lv: "computeRmsLevel s rms = computeRmsLevel t rms"
    using eqs(1)
    by (cases "analyserRef s"; cases "analyserRef t") (simp_all add: computeRmsLevel_def)
  show ?thesis
    using r q eqs lv
    by (auto simp: monitor_tick_def vad_view_def recorder_active_def recorder_stop_def Let_def)
qed

text \<open>The stop event: the result goes to the pending resolver, if any, and to the
  completion callback, and the references are reset.\<close>

lemma onstop_calls:
  "calls (onstop m s) = calls s @
     (case resolveStopRef s of None \<Rightarrow> [] | Some p \<Rightarrow> [ResolveStop p (final_result m s)]) @
     [OnRecordingComplete (final_result m s)]"
  by (cases "monitorTimerRef s"; cases "resolveStopRef s")
     (simp_all add: onstop_def Let_def cleanup_eq clearMonitorTimer_def final_result_def
        mime_or_default_def)

lemma onstop_idle: "idle_refs (onstop m s) \<and> resolveStopRef (onstop m s) = None"
  by (cases "monitorTimerRef s")
     (simp_all add: onstop_def Let_def cleanup_eq clearMonitorTimer_def idle_refs_def)

subsection \<open>Runs\<close>

lemma run_append: "run cfg s (es @ fs) = run cfg (run cfg s es) fs"
  by (induction es arbitrary: s) simp_all

lemma run_snoc: "run cfg s (es @ [e]) = step cfg (run cfg s es) e"
  by (simp add: run_append)


lemma collected_append: "collected (es @ fs) = collected es @ collected fs"
  by (induction es rule: collected.induct) simp_all

lemma delivered_append: "delivered (es @ fs) = delivered es @ delivered fs"
  by (induction es rule: delivered.induct) simp_all

lemma collected_bytes:
  "concat (map blob_bytes (collected es)) = concat (map blob_bytes (delivered es))"
  by (induction es rule: collected.induct) (simp_all add: size_blob_def)

lemma sample_or_data_well_timed:
  "\<forall>e\<in>set es. is_sample_or_data e \<Longrightarrow> well_timed cfg s es"
proof (induction es arbitrary: s)
  case Nil
  then show ?case by simp
next
  case (Cons e es)
  then show ?case by (cases e) simp_all
qed

text \<open>One permitted event of a session keeps what the final result is made of.\<close>

lemma step_session:
  assumes "well_timed cfg s [e]"
  shows "chunksRef (step cfg s e) = chunksRef s @ collected [e]"
    and "speechDetectedRef s \<Longrightarrow> speechDetectedRef (step cfg s e)"
    and "analyserRef (step cfg s e) = analyserRef s"
    and "recordingStartedAtRef (step cfg s e) = recordingStartedAtRef s"
    and "recorder_active (step cfg s e) \<Longrightarrow> recorder_active s"
proof -
  show "chunksRef (step cfg s e) = chunksRef s @ collected [e]"
    using assms
    by (cases e) (auto simp: tick_frame data_frame callstop_active stop_frame)
  show "speechDetectedRef s \<Longrightarrow> speechDetectedRef (step cfg s e)"
    using assms
    by (cases e) (auto simp: tick_speech_mono data_frame callstop_active stop_frame)
  show "analyserRef (step cfg s e) = analyserRef s"
    using assms
    by (cases e) (auto simp: tick_frame data_frame callstop_active stop_frame)
  show "recordingStartedAtRef (step cfg s e) = recordingStartedAtRef s"
    using assms
    by (cases e) (auto simp: tick_frame data_frame callstop_active stop_frame)
  show "recorder_active (step cfg s e) \<Longrightarrow> recorder_active s"
    using assms
    by (cases e) (auto simp: data_active callstop_active stop_inactive dest: tick_active_back)
qed

lemma run_session:
  assumes "well_timed cfg s es"
  shows "chunksRef (run cfg s es) = chunksRef s @ collected es
    \<and> (speechDetectedRef s \<longrightarrow> speechDetectedRef (run cfg s es))
    \<and> analyserRef (run cfg s es) = analyserRef s
    \<and> recordingStartedAtRef (run cfg s es) = recordingStartedAtRef s
    \<and> (recorder_active (run cfg s es) \<longrightarrow> recorder_active s)"
  using assms
proof (induction es arbitrary: s)
  case Nil
  then show ?case by simp
next
  case (Cons e es)
  have one: "well_timed cfg s [e]" and rest: "well_timed cfg (step cfg s e) es"
    using Cons.prems by simp_all
  note st = step_session[OF one]
  have ih: "chunksRef (run cfg (step cfg s e) es) = chunksRef (step cfg s e) @ collected es
    \<and> (speechDetectedRef (step cfg s e) \<longrightarrow> speechDetectedRef (run cfg (step cfg s e) es))
    \<and> analyserRef (run cfg (step cfg s e) es) = analyserRef (step cfg s e)
    \<and> recordingStartedAtRef (run cfg (step cfg s e) es)
        = recordingStartedAtRef (step cfg s e)
    \<and> (recorder_active (run cfg (step cfg s e) es) \<longrightarrow> recorder_active (step cfg s e))"
    by (rule Cons.IH[OF rest])
  have col: "collected (e # es) = collected [e] @ collected es"
    using collected_append[of "[e]" es] by simp
  show ?case
    using ih st by (simp add: col)
qed

lemma default_session_started:
  "session_started (effective_config None) 0 default_session"
  by (simp add: session_started_def default_session_eq recorder_active_def default_config)

text \<open>A call of \<^verbatim>\<open>startRecording\<close> that finds no recorder recording and returns true has
  begun a session with the constants of its options, at the time the browser gave, and
  has called nothing.\<close>

lemma startRecording_begins_session:
  assumes "\<not> recorder_active s" and "fst (startRecording options env s)"
  shows "session_started (effective_config options) (performanceNow env)
           (snd (startRecording options env s))
     \<and> calls (snd (startRecording options env s)) = calls s"
  using assms
  by (cases "recorderRef s")
     (auto simp: startRecording_def startRecording_session_def catch_result
        session_started_def recorder_active_def Let_def
        split: if_splits sum.splits option.splits)

lemma stop_event_calls:
  "calls (step cfg s (StopEvent m)) = calls s @
     (case resolveStopRef s of None \<Rightarrow> [] | Some p \<Rightarrow> [ResolveStop p (final_result m s)]) @
     [OnRecordingComplete (final_result m s)]"
  by (simp add: onstop_calls)

lemma stop_event_idle:
  "idle_refs (step cfg s (StopEvent m)) \<and> resolveStopRef (step cfg s (StopEvent m)) = None"
  by (simp add: onstop_idle)

text \<open>Once the recorder is not recording, ticks and data leave it so, and a pending
  resolver stays pending.\<close>

lemma run_inactive:
  assumes "\<not> recorder_active s" and "well_timed cfg s es"
  shows "\<not> recorder_active (run cfg s es) \<and> resolveStopRef (run cfg s es) = resolveStopRef s
         \<and> (\<forall>p. CallStop p \<notin> set es)"
  using assms
proof (induction es arbitrary: s)
  case Nil
  then show ?case by simp
next
  case (Cons e es)
  have rest: "well_timed cfg (step cfg s e) es" using Cons.prems(2) by simp
  have st: "\<not> recorder_active (step cfg s e) \<and> resolveStopRef (step cfg s e) = resolveStopRef s
            \<and> (\<forall>p. e \<noteq> CallStop p)"
    using Cons.prems
    by (cases e) (auto simp: tick_inactive data_active data_frame)
  with Cons.IH[of "step cfg s e"] rest show ?case by auto
qed



lemma calls_since_append: "calls t = calls s @ cs \<Longrightarrow> calls_since s t = cs"
  by (simp add: calls_since_def)

lemma completions_append: "completions (xs @ ys) = completions xs @ completions ys"
  by (induction xs rule: completions.induct) simp_all

lemma snapshots_append: "snapshots (xs @ ys) = snapshots xs @ snapshots ys"
  by (induction xs rule: snapshots.induct) simp_all

lemma completions_stop_event:
  "completions (calls_since s (step cfg s (StopEvent m))) = [final_result m s]"
proof -
  have "calls_since s (step cfg s (StopEvent m)) =
     (case resolveStopRef s of None \<Rightarrow> [] | Some p \<Rightarrow> [ResolveStop p (final_result m s)]) @
     [OnRecordingComplete (final_result m s)]"
    using stop_event_calls[of cfg s m] by (rule calls_since_append)
  then show ?thesis by (cases "resolveStopRef s") simp_all
qed

lemmas session_eval =
  default_session_eq default_config monitor_tick_def computeRmsLevel_def recorder_stop_def
  ondataavailable_def onstop_def stopRecording_def cleanup_eq clearMonitorTimer_def
  recorder_active_def new_Blob_def size_blob_def mime_or_default_def final_result_def Let_def

subsection \<open>The final result\<close>

lemma started_active: "session_started cfg t0 s \<Longrightarrow> recorder_active s"
  by (simp add: session_started_def)




subsection \<open>A session without speech\<close>

text \<open>While no sample reaches the threshold and the ceiling is not reached, a session
  that awaits speech goes on awaiting it and calls nothing.\<close>

lemma run_silent:
  assumes "recorder_active s" and "analyserRef s \<noteq> None" and "\<not> speechDetectedRef s"
    and "\<forall>e\<in>set es. is_sample_or_data e"
    and "\<forall>now rms. Tick now rms \<in> set es \<longrightarrow>
           \<not> reaches rms (energyThreshold cfg)
           \<and> \<not> reaches (now - recordingStartedAtRef s) (maxDurationMs cfg)"
  shows "recorder_active (run cfg s es) \<and> \<not> speechDetectedRef (run cfg s es)
     \<and> calls (run cfg s es) = calls s \<and> resolveStopRef (run cfg s es) = resolveStopRef s"
  using assms
proof (induction es arbitrary: s)
  case Nil
  then show ?case by simp
next
  case (Cons e es)
  show ?case
  proof (cases e)
    case (Tick now rms)
    with Cons.prems(5) have q: "\<not> reaches rms (energyThreshold cfg)"
      "\<not> reaches (now - recordingStartedAtRef s) (maxDurationMs cfg)" by simp_all
    have "monitor_tick cfg rms now s = s"
      using tick_awaiting[OF Cons.prems(1) Cons.prems(3) Cons.prems(2) q(2), of rms] q(1)
      by simp
    then have st: "step cfg s e = s" using Tick by simp
    show ?thesis using Cons.IH[of s] Cons.prems st by simp
  next
    case (DataAvailable m d)
    have a: "recorder_active (step cfg s e)" "analyserRef (step cfg s e) \<noteq> None"
      "\<not> speechDetectedRef (step cfg s e)"
      "recordingStartedAtRef (step cfg s e) = recordingStartedAtRef s"
      "calls (step cfg s e) = calls s" "resolveStopRef (step cfg s e) = resolveStopRef s"
      using Cons.prems(1,2,3) unfolding DataAvailable
      by (simp_all add: data_active data_frame data_calls_silent)
    show ?thesis
      using Cons.IH[OF a(1) a(2) a(3)] Cons.prems(4,5) a(4,5,6) by simp
  next
    case (StopEvent m)
    with Cons.prems(4) show ?thesis by simp
  next
    case (CallStop p)
    with Cons.prems(4) show ?thesis by simp
  qed
qed

lemma run_stopped_silent:
  assumes "\<not> recorder_active s" and "\<not> speechDetectedRef s"
    and "\<forall>e\<in>set es. is_sample_or_data e"
  shows "\<not> speechDetectedRef (run cfg s es) \<and> calls (run cfg s es) = calls s
     \<and> resolveStopRef (run cfg s es) = resolveStopRef s"
  using assms
proof (induction es arbitrary: s)
  case Nil
  then show ?case by simp
next
  case (Cons e es)
  show ?case
  proof (cases e)
    case (Tick now rms)
    have st: "step cfg s e = s" using Tick Cons.prems(1) by (simp add: tick_inactive)
    show ?thesis using Cons.IH[of s] Cons.prems st by simp
  next
    case (DataAvailable m d)
    have a: "\<not> recorder_active (step cfg s e)" "\<not> speechDetectedRef (step cfg s e)"
      "calls (step cfg s e) = calls s" "resolveStopRef (step cfg s e) = resolveStopRef s"
      using Cons.prems(1,2) unfolding DataAvailable
      by (simp_all add: data_active data_frame data_calls_silent)
    show ?thesis using Cons.IH[OF a(1) a(2)] Cons.prems(3) a(3,4) by simp
  next
    case (StopEvent m)
    with Cons.prems(3) show ?thesis by simp
  next
    case (CallStop p)
    with Cons.prems(3) show ?thesis by simp
  qed
qed

text \<open>
  Claim C3. Take a session that has just started at \<open>t0\<close> and receives ticks and data
  only. While every sample is below the energy threshold and comes less than the maximal
  duration after \<open>t0\<close>, the recorder goes on recording. The first tick that comes at
  least the maximal duration after \<open>t0\<close> stops it, and when the stop event arrives the
  result is absent: \<^verbatim>\<open>onRecordingComplete\<close> is the only callback called (besides a
  resolver pending from before), with no blob, whatever data arrived.
\<close>

theorem no_speech_ceiling:
  assumes "session_started cfg t0 s0"
    and "\<forall>e\<in>set pre. is_sample_or_data e" and "\<forall>e\<in>set post. is_sample_or_data e"
    and "\<forall>now' rms'. Tick now' rms' \<in> set pre \<longrightarrow>
           \<not> reaches rms' (energyThreshold cfg) \<and> \<not> reaches (now' - t0) (maxDurationMs cfg)"
    and "reaches (now - t0) (maxDurationMs cfg)"
  shows "recorder_active (run cfg s0 pre)
     \<and> \<not> recorder_active (run cfg s0 (pre @ [Tick now rms]))
     \<and> calls_since s0 (run cfg s0 (pre @ [Tick now rms] @ post @ [StopEvent m])) =
         (case resolveStopRef s0 of None \<Rightarrow> [] | Some p \<Rightarrow> [ResolveStop p None]) @
         [OnRecordingComplete None]
     \<and> idle_refs (run cfg s0 (pre @ [Tick now rms] @ post @ [StopEvent m]))"
proof -
  let ?s1 = "run cfg s0 pre"
  let ?s2 = "step cfg ?s1 (Tick now rms)"
  let ?s3 = "run cfg ?s2 post"
  have st: "recorder_active s0" "analyserRef s0 \<noteq> None" "\<not> speechDetectedRef s0"
    "recordingStartedAtRef s0 = t0"
    using assms(1) by (simp_all add: session_started_def)
  have q: "\<forall>now' rms'. Tick now' rms' \<in> set pre \<longrightarrow>
           \<not> reaches rms' (energyThreshold cfg)
           \<and> \<not> reaches (now' - recordingStartedAtRef s0) (maxDurationMs cfg)"
    using assms(4) st(4) by simp
  note s1 = run_silent[OF st(1) st(2) st(3) assms(2) q]
  have w1: "well_timed cfg s0 pre" using assms(2) by (rule sample_or_data_well_timed)
  note i1 = run_session[OF w1]
  have t1: "recordingStartedAtRef ?s1 = t0" using i1 st(4) by simp
  have a1: "recorder_active ?s1" using s1 by simp
  have e2: "?s2 = recorder_stop ?s1"
    using tick_ceiling[OF a1, of now cfg rms] assms(5) t1 by simp
  have a2: "\<not> recorder_active ?s2" unfolding e2 by (rule stop_inactive)
  have f2: "\<not> speechDetectedRef ?s2" "calls ?s2 = calls s0"
    "resolveStopRef ?s2 = resolveStopRef s0"
    unfolding e2 using s1 by (simp_all add: stop_frame)
  note s3 = run_stopped_silent[OF a2 f2(1) assms(3), of cfg]
  have fin: "final_result m ?s3 = None" using s3 by (simp add: final_result_def)
  have whole: "run cfg s0 (pre @ [Tick now rms] @ post @ [StopEvent m])
                 = step cfg ?s3 (StopEvent m)"
    by (simp add: run_append)
  have "calls (step cfg ?s3 (StopEvent m)) = calls s0 @
         ((case resolveStopRef s0 of None \<Rightarrow> [] | Some p \<Rightarrow> [ResolveStop p None]) @
          [OnRecordingComplete None])"
    using stop_event_calls[of cfg ?s3 m] s3 f2 fin
    by (cases "resolveStopRef s0") (simp_all del: step.simps)
  then have c: "calls_since s0 (run cfg s0 (pre @ [Tick now rms] @ post @ [StopEvent m])) =
         (case resolveStopRef s0 of None \<Rightarrow> [] | Some p \<Rightarrow> [ResolveStop p None]) @
         [OnRecordingComplete None]"
    unfolding whole by (rule calls_since_append)
  have d: "idle_refs (run cfg s0 (pre @ [Tick now rms] @ post @ [StopEvent m]))"
    unfolding whole using stop_event_idle[of cfg ?s3 m] by (simp del: step.simps)
  have b: "\<not> recorder_active (run cfg s0 (pre @ [Tick now rms]))"
    using a2 by (simp add: run_append)
  from a1 b c d show ?thesis by blast
qed

text \<open>The theorem at the default session: two quiet samples, then the tick at 12 s.\<close>

theorem no_speech_ceiling_witness:
  "session_started (effective_config None) 0 default_session
   \<and> reaches (12000 - 0) (maxDurationMs (effective_config None))
   \<and> recorder_active (run (effective_config None) default_session
         [Tick 100 0.01, DataAvailable ''audio/webm'' (Blob [1] []), Tick 200 0])
   \<and> \<not> recorder_active (run (effective_config None) default_session
         ([Tick 100 0.01, DataAvailable ''audio/webm'' (Blob [1] []), Tick 200 0]
          @ [Tick 12000 0.01]))
   \<and> calls_since default_session (run (effective_config None) default_session
         ([Tick 100 0.01, DataAvailable ''audio/webm'' (Blob [1] []), Tick 200 0]
          @ [Tick 12000 0.01] @ [DataAvailable ''audio/webm'' (Blob [2] [])]
          @ [StopEvent ''audio/webm'']))
       = [OnRecordingComplete None]"
proof -
  let ?pre = "[Tick 100 0.01, DataAvailable ''audio/webm'' (Blob [1] []), Tick 200 0]"
  have h1: "session_started (effective_config None) 0 default_session"
    by (rule default_session_started)
  have h2: "\<forall>e\<in>set ?pre. is_sample_or_data e" by simp
  have h3: "\<forall>e\<in>set [DataAvailable ''audio/webm'' (Blob [2] [])]. is_sample_or_data e"
    by simp
  have h4: "\<forall>now' rms'. Tick now' rms' \<in> set ?pre \<longrightarrow>
           \<not> reaches rms' (energyThreshold (effective_config None))
           \<and> \<not> reaches (now' - 0) (maxDurationMs (effective_config None))"
    by (auto simp: default_config)
  have h5: "reaches (12000 - 0) (maxDurationMs (effective_config None))"
    by (simp add: default_config)
  have n: "resolveStopRef default_session = None" by (simp add: default_session_eq)
  show ?thesis
    using h1 h5 no_speech_ceiling [OF h1 h2 h3 h4 h5, of "0.01" "''audio/webm''"]
    by (simp only: n option.case append_Nil simp_thms)
qed

subsection \<open>The ceiling on the duration\<close>

lemma paced_bound:
  assumes "recordingStartedAtRef s = t0"
    and "\<forall>e\<in>set pre. is_sample_or_data e"
    and "paced iv tp (pre @ Tick now rms # post)"
    and "maxDurationMs cfg = Finite mx"
    and "tp - t0 < mx"
    and "recorder_active (run cfg s pre)"
  shows "now - t0 < mx + iv"
  using assms
proof (induction pre arbitrary: s tp)
  case Nil
  then show ?case by simp
next
  case (Cons e pre)
  have sd: "\<forall>e\<in>set pre. is_sample_or_data e" using Cons.prems(2) by simp
  show ?case
  proof (cases e)
    case (Tick n r)
    have p: "n \<le> tp + iv" "paced iv n (pre @ Tick now rms # post)"
      using Cons.prems(3) Tick by simp_all
    have act: "recorder_active (run cfg (step cfg s e) pre)" using Cons.prems(6) by simp
    have below: "n - t0 < mx"
    proof (rule ccontr)
      assume "\<not> n - t0 < mx"
      then have "reaches (n - recordingStartedAtRef s) (maxDurationMs cfg)"
        using Cons.prems(1,4) by simp
      then have "\<not> recorder_active (step cfg s e)"
        using Tick by (simp add: tick_ceiling_inactive)
      from run_inactive[OF this sample_or_data_well_timed[OF sd]] act show False by simp
    qed
    have t: "recordingStartedAtRef (step cfg s e) = t0"
      using Tick Cons.prems(1) by (simp add: tick_frame)
    show ?thesis by (rule Cons.IH[OF t sd p(2) Cons.prems(4) below act])
  next
    case (DataAvailable m d)
    have p: "paced iv tp (pre @ Tick now rms # post)"
      using Cons.prems(3) DataAvailable by simp
    have act: "recorder_active (run cfg (step cfg s e) pre)" using Cons.prems(6) by simp
    have t: "recordingStartedAtRef (step cfg s e) = t0"
      unfolding DataAvailable using Cons.prems(1) by (simp add: data_frame)
    show ?thesis by (rule Cons.IH[OF t sd p Cons.prems(4) Cons.prems(5) act])
  next
    case (StopEvent m)
    with Cons.prems(2) show ?thesis by simp
  next
    case (CallStop p)
    with Cons.prems(2) show ?thesis by simp
  qed
qed

text \<open>Options whose fields are absent or finite give finite constants, at least the
  floors.\<close>

lemma finite_constant:
  assumes "v = None \<or> (\<exists>x. v = Some (Finite x))"
  shows "\<exists>y. Math_max (Finite f) (Math_round (nullish v (Finite d))) = Finite y \<and> f \<le> y"
  using assms by (auto simp: nullish_def)

text \<open>With a maximal duration of NaN no tick reaches the ceiling: the session started
  with such options still records at a tick a million seconds after its start.\<close>

lemma nan_session_no_ceiling:
  "maxDurationMs (effective_config (Some nan_options)) = NaN
   \<and> recorder_active
        (run (effective_config (Some nan_options)) nan_session [Tick 1000000000 0])"
  by (simp add: nan_session_def nan_options_def startRecording_def
        startRecording_session_def ok_env_def mounted_def effective_config_def opt_field_def
        nullish_def monitor_tick_def computeRmsLevel_def recorder_active_def Let_def)

text \<open>
  Claim C10, amended. Take a session that has just started at \<open>t0\<close> and receives ticks
  and data only up to its stop event (so no call of \<^verbatim>\<open>stopRecording\<close>). In every phase,
  awaiting speech or speaking, a tick that comes at least the maximal duration after
  \<open>t0\<close> leaves the recorder stopped. When the maximal duration and the sample interval
  are finite numbers and each tick comes at most one sample interval after the one before
  it (the first after \<open>t0\<close>), every tick that finds the recorder recording comes less
  than the maximal duration plus one sample interval after \<open>t0\<close>. The ceiling counts
  from the start of the session, not from the start of speech. At the stop event the blob
  is present when speech was detected and at least one chunk with bytes arrived, and
  absent otherwise.
\<close>

theorem max_duration_ceiling:
  assumes "session_started cfg t0 s0" and "\<forall>e\<in>set es. is_sample_or_data e"
  shows "(\<forall>pre now rms post. es = pre @ Tick now rms # post
            \<longrightarrow> reaches (now - t0) (maxDurationMs cfg)
            \<longrightarrow> \<not> recorder_active (run cfg s0 (pre @ [Tick now rms])))
     \<and> (\<forall>mx iv. maxDurationMs cfg = Finite mx \<and> sampleIntervalMs cfg = Finite iv
            \<and> 0 < mx \<and> paced iv t0 es
            \<longrightarrow> (\<forall>pre now rms post. es = pre @ Tick now rms # post
                   \<longrightarrow> recorder_active (run cfg s0 pre)
                   \<longrightarrow> now - t0 < mx + iv))
     \<and> completions (calls_since (run cfg s0 es) (run cfg s0 (es @ [StopEvent m]))) =
         [if speechDetectedRef (run cfg s0 es) \<and> collected es \<noteq> []
          then Some (Blob (concat (map blob_bytes (delivered es))) (mime_or_default m))
          else None]"
proof -
  have st: "recordingStartedAtRef s0 = t0" "chunksRef s0 = []"
    using assms(1) by (simp_all add: session_started_def)
  have a: "\<not> recorder_active (run cfg s0 (pre @ [Tick now rms]))"
    if "es = pre @ Tick now rms # post" and "reaches (now - t0) (maxDurationMs cfg)"
    for pre now rms post
  proof -
    have "\<forall>e\<in>set pre. is_sample_or_data e" using assms(2) that(1) by simp
    then have "well_timed cfg s0 pre" by (rule sample_or_data_well_timed)
    from run_session[OF this] st(1) have "recordingStartedAtRef (run cfg s0 pre) = t0"
      by simp
    with that(2) show ?thesis by (simp add: run_append tick_ceiling_inactive)
  qed
  have b: "now - t0 < mx + iv"
    if "maxDurationMs cfg = Finite mx" and "0 < mx" and "paced iv t0 es"
      and "es = pre @ Tick now rms # post" and "recorder_active (run cfg s0 pre)"
    for mx iv pre now rms post
  proof -
    have sd: "\<forall>e\<in>set pre. is_sample_or_data e" using assms(2) that(4) by simp
    have p: "paced iv t0 (pre @ Tick now rms # post)" using that(3,4) by simp
    have z: "t0 - t0 < mx" using that(2) by simp
    show ?thesis by (rule paced_bound[OF st(1) sd p that(1) z that(5)])
  qed
  have w: "well_timed cfg s0 es" using assms(2) by (rule sample_or_data_well_timed)
  note inv = run_session[OF w]
  have f: "final_result m (run cfg s0 es) =
         (if speechDetectedRef (run cfg s0 es) \<and> collected es \<noteq> []
          then Some (Blob (concat (map blob_bytes (delivered es))) (mime_or_default m))
          else None)"
    using inv st(2) by (simp add: final_result_def new_Blob_def collected_bytes)
  have c: "completions (calls_since (run cfg s0 es) (run cfg s0 (es @ [StopEvent m]))) =
         [if speechDetectedRef (run cfg s0 es) \<and> collected es \<noteq> []
          then Some (Blob (concat (map blob_bytes (delivered es))) (mime_or_default m))
          else None]"
    using completions_stop_event[of "run cfg s0 es" cfg m] f by (simp only: run_snoc)
  from a b c show ?thesis by blast
qed

text \<open>The theorem at a session with a ceiling of one second: speech at 0.5 s, one chunk,
  and the tick at 1 s.\<close>

lemma short_config_eq:
  "short_config = \<lparr> maxDurationMs = Finite 1000, minDurationMs = Finite 500,
       endSilenceMs = Finite 600, energyThreshold = Finite 0.015,
       sampleIntervalMs = Finite 500, timesliceMs = Finite 250 \<rparr>"
  by (simp add: short_config_def short_options_def effective_config_def opt_field_def
        nullish_def)

lemma short_session_eq:
  "short_session = default_session\<lparr> sessionConfig := Some short_config \<rparr>"
  by (simp add: short_session_def short_config_def default_session_eq startRecording_def
        startRecording_session_def ok_env_def mounted_def)

lemma short_session_started: "session_started short_config 0 short_session"
  by (simp add: session_started_def short_session_eq default_session_eq recorder_active_def)

lemmas short_eval =
  short_session_eq default_session_eq short_config_eq monitor_tick_def computeRmsLevel_def
  recorder_stop_def ondataavailable_def onstop_def stopRecording_def cleanup_eq
  clearMonitorTimer_def recorder_active_def new_Blob_def size_blob_def mime_or_default_def
  final_result_def Let_def

theorem max_duration_ceiling_witness:
  "session_started short_config 0 short_session
   \<and> maxDurationMs short_config = Finite 1000 \<and> sampleIntervalMs short_config = Finite 500
   \<and> paced 500 0 [Tick 500 0.5, DataAvailable ''audio/webm'' (Blob [1] []), Tick 1000 0.5]
   \<and> \<not> recorder_active (run short_config short_session
          ([Tick 500 0.5, DataAvailable ''audio/webm'' (Blob [1] [])] @ [Tick 1000 0.5]))
   \<and> (1000::real) - 0 < 1000 + 500
   \<and> completions (calls_since
         (run short_config short_session
            [Tick 500 0.5, DataAvailable ''audio/webm'' (Blob [1] []), Tick 1000 0.5])
         (run short_config short_session
            ([Tick 500 0.5, DataAvailable ''audio/webm'' (Blob [1] []), Tick 1000 0.5]
             @ [StopEvent ''audio/webm''])))
       = [Some (Blob [1] ''audio/webm'')]"
proof -
  let ?es = "[Tick 500 0.5, DataAvailable ''audio/webm'' (Blob [1] []), Tick 1000 0.5]"
  let ?pre = "[Tick 500 0.5, DataAvailable ''audio/webm'' (Blob [1] [])]"
  have h1: "session_started short_config 0 short_session" by (rule short_session_started)
  have h2: "\<forall>e\<in>set ?es. is_sample_or_data e" by simp
  have mx: "maxDurationMs short_config = Finite 1000"
    and iv: "sampleIntervalMs short_config = Finite 500"
    by (simp_all add: short_config_eq)
  have h3: "paced 500 0 ?es" by simp
  note th = max_duration_ceiling [OF h1 h2, of "''audio/webm''"]
  have d: "?es = ?pre @ Tick 1000 0.5 # []" by simp
  have m: "reaches (1000 - 0) (maxDurationMs short_config)" by (simp add: mx)
  have act: "recorder_active (run short_config short_session ?pre)"
    by (simp add: short_eval)
  have a: "\<not> recorder_active (run short_config short_session (?pre @ [Tick 1000 0.5]))"
    using th d m by blast
  have pos: "(0::real) < 1000" by simp
  have b: "(1000::real) - 0 < 1000 + 500"
    using th mx iv pos h3 d act by blast
  have sp: "speechDetectedRef (run short_config short_session ?es)"
    by (simp add: short_eval)
  have c: "completions (calls_since (run short_config short_session ?es)
         (run short_config short_session (?es @ [StopEvent ''audio/webm''])))
       = [Some (Blob [1] ''audio/webm'')]"
    using th sp by (simp add: size_blob_def mime_or_default_def)
  from h1 mx iv h3 a b c show ?thesis by simp
qed

text \<open>
  Claim C10, as stated: the session never lasts longer than the maximal duration plus one
  sample interval, and a session that entered the speaking phase and is stopped by the
  ceiling has its blob present. The first fails in the default session with speech at
  100 ms and the next tick only at 20 s (a throttled timer): the recorder still records
  until that tick, more than 12.1 s after the start. The second fails there when no chunk
  with bytes has arrived, and it fails with a chunk collected when the caller calls
  \<^verbatim>\<open>stopRecording\<close> between the ceiling tick and the stop event: that call takes the
  branch for an idle hook and empties the chunks, and the stop event hands out no blob.
\<close>

theorem max_duration_late_and_blob_absent:
  "speechDetectedRef (run (effective_config None) default_session [Tick 100 0.5])
   \<and> recorder_active (run (effective_config None) default_session [Tick 100 0.5])
   \<and> maxDurationMs (effective_config None) = Finite 12000
   \<and> sampleIntervalMs (effective_config None) = Finite 100
   \<and> (12000::real) + 100 < 20000 - recordingStartedAtRef default_session
   \<and> \<not> recorder_active (run (effective_config None) default_session
          [Tick 100 0.5, Tick 20000 0.5])
   \<and> calls (run (effective_config None) default_session
          [Tick 100 0.5, Tick 20000 0.5, StopEvent ''audio/webm''])
       = [OnRecordingComplete None]
   \<and> completions (calls (run (effective_config None) default_session
          [Tick 100 0.5, DataAvailable ''audio/webm'' (Blob [1] []), Tick 12000 0.5,
           CallStop 7, StopEvent ''audio/webm'']))
       = [None]"
  by (simp add: session_eval)

subsection \<open>Stopping on silence\<close>





subsection \<open>Snapshots of the chunks\<close>

lemma size_new_Blob: "size_blob (new_Blob bs m) = total_bytes bs"
  by (simp add: size_blob_def new_Blob_def total_bytes_def)

lemma total_bytes_append: "total_bytes (xs @ ys) = total_bytes xs + total_bytes ys"
  by (simp add: total_bytes_def)

text \<open>What one permitted event adds to the calls: a snapshot of all chunks, for a chunk
  with bytes that arrives after speech was detected, and nothing otherwise.\<close>

lemma step_calls:
  assumes "well_timed cfg s [e]"
  shows "calls (step cfg s e) = calls s @
     (case e of
        DataAvailable m d \<Rightarrow>
          if size_blob d > 0 \<and> speechDetectedRef s
          then [OnRecordingChunk (new_Blob (chunksRef (step cfg s e)) (mime_or_default m))]
          else []
      | _ \<Rightarrow> [])"
proof (cases e)
  case (Tick now rms)
  then show ?thesis by (simp add: tick_frame)
next
  case (DataAvailable m d)
  then show ?thesis by (simp add: data_calls data_frame)
next
  case (StopEvent m)
  with assms show ?thesis by simp
next
  case (CallStop p)
  with assms show ?thesis by (simp add: callstop_active stop_frame)
qed

lemma run_calls:
  assumes "well_timed cfg s es"
  shows "\<exists>cs. calls (run cfg s es) = calls s @ cs \<and> completions cs = []
     \<and> sorted (map size_blob (snapshots cs))
     \<and> (\<forall>b\<in>set (snapshots cs). total_bytes (chunksRef s) \<le> size_blob b)
     \<and> (\<not> speechDetectedRef (run cfg s es) \<longrightarrow> cs = [])"
  using assms
proof (induction es arbitrary: s)
  case Nil
  then show ?case by simp
next
  case (Cons e es)
  let ?s' = "step cfg s e"
  have one: "well_timed cfg s [e]" and rest: "well_timed cfg ?s' es"
    using Cons.prems by simp_all
  note st = step_session[OF one]
  obtain cs where cs: "calls (run cfg ?s' es) = calls ?s' @ cs" "completions cs = []"
    "sorted (map size_blob (snapshots cs))"
    "\<forall>b\<in>set (snapshots cs). total_bytes (chunksRef ?s') \<le> size_blob b"
    "\<not> speechDetectedRef (run cfg ?s' es) \<longrightarrow> cs = []"
    using Cons.IH[OF rest] by blast
  have grow: "total_bytes (chunksRef s) \<le> total_bytes (chunksRef ?s')"
    using st(1) by (simp add: total_bytes_append)
  have mono: "speechDetectedRef ?s' \<longrightarrow> speechDetectedRef (run cfg ?s' es)"
    using run_session[OF rest] by simp
  define ce where "ce = (case e of
        DataAvailable m d \<Rightarrow>
          if size_blob d > 0 \<and> speechDetectedRef s
          then [OnRecordingChunk (new_Blob (chunksRef ?s') (mime_or_default m))]
          else []
      | _ \<Rightarrow> [])"
  have c1: "calls ?s' = calls s @ ce"
    unfolding ce_def by (rule step_calls[OF one])
  have ce_cases: "ce = [] \<or> (speechDetectedRef s
       \<and> (\<exists>m. ce = [OnRecordingChunk (new_Blob (chunksRef ?s') (mime_or_default m))]))"
    unfolding ce_def by (cases e) auto
  have whole: "calls (run cfg s (e # es)) = calls s @ (ce @ cs)"
    using cs(1) c1 by simp
  have p1: "completions (ce @ cs) = []"
    using ce_cases cs(2) by (auto simp: completions_append)
  have p2: "sorted (map size_blob (snapshots (ce @ cs)))"
    using ce_cases cs(3,4) by (auto simp: snapshots_append size_new_Blob)
  have p3: "\<forall>b\<in>set (snapshots (ce @ cs)). total_bytes (chunksRef s) \<le> size_blob b"
    using ce_cases cs(4) grow by (auto simp: snapshots_append size_new_Blob)
  have p4: "\<not> speechDetectedRef (run cfg s (e # es)) \<longrightarrow> ce @ cs = []"
    using ce_cases cs(5) mono st(2) by auto
  from whole p1 p2 p3 p4 show ?case by blast
qed

text \<open>
  Claim C8, amended. Take a session that has just started and any events up to its stop
  event. A chunk with bytes that arrives once speech has been detected makes one call of
  \<^verbatim>\<open>onRecordingChunk\<close>, with the concatenation of all chunks delivered so far, this one
  included. A chunk without bytes, or a chunk that arrives before speech is detected,
  makes no call. The sizes of the snapshots of a session never decrease, and there is no
  snapshot while speech has not been detected. \<open>m\<close> is the \<^verbatim>\<open>mimeType\<close> of the recorder
  that delivers the chunk.
\<close>

theorem chunk_snapshots:
  assumes "session_started cfg t0 s0" and "well_timed cfg s0 es"
  shows "(\<forall>m d. speechDetectedRef (run cfg s0 es) \<and> size_blob d > 0 \<longrightarrow>
            calls (run cfg s0 (es @ [DataAvailable m d])) = calls (run cfg s0 es) @
              [OnRecordingChunk
                 (Blob (concat (map blob_bytes (delivered (es @ [DataAvailable m d]))))
                    (mime_or_default m))])
     \<and> (\<forall>m d. \<not> (speechDetectedRef (run cfg s0 es) \<and> size_blob d > 0) \<longrightarrow>
            calls (run cfg s0 (es @ [DataAvailable m d])) = calls (run cfg s0 es))
     \<and> sorted (map size_blob (snapshots (calls_since s0 (run cfg s0 es))))
     \<and> (\<not> speechDetectedRef (run cfg s0 es)
          \<longrightarrow> snapshots (calls_since s0 (run cfg s0 es)) = [])"
proof -
  have c0: "chunksRef s0 = []" using assms(1) by (simp add: session_started_def)
  note inv = run_session[OF assms(2)]
  have ch: "chunksRef (run cfg s0 es) = collected es" using inv c0 by simp
  have a: "calls (run cfg s0 (es @ [DataAvailable m d])) = calls (run cfg s0 es) @
              [OnRecordingChunk
                 (Blob (concat (map blob_bytes (delivered (es @ [DataAvailable m d]))))
                    (mime_or_default m))]"
    if "speechDetectedRef (run cfg s0 es) \<and> size_blob d > 0" for m d
  proof -
    have "collected es @ [d] = collected (es @ [DataAvailable m d])"
      using that by (simp add: collected_append)
    then have "concat (map blob_bytes (collected es @ [d]))
        = concat (map blob_bytes (delivered (es @ [DataAvailable m d])))"
      by (simp only: collected_bytes)
    then show ?thesis
      using data_calls[of m d "run cfg s0 es"] that ch
      by (simp add: run_snoc new_Blob_def)
  qed
  have b: "calls (run cfg s0 (es @ [DataAvailable m d])) = calls (run cfg s0 es)"
    if "\<not> (speechDetectedRef (run cfg s0 es) \<and> size_blob d > 0)" for m d
    using data_calls[of m d "run cfg s0 es"] that by (auto simp: run_snoc)
  obtain cs where cs: "calls (run cfg s0 es) = calls s0 @ cs"
    "sorted (map size_blob (snapshots cs))"
    "\<not> speechDetectedRef (run cfg s0 es) \<longrightarrow> cs = []"
    using run_calls[OF assms(2)] by blast
  have e: "calls_since s0 (run cfg s0 es) = cs" using cs(1) by (rule calls_since_append)
  have c: "sorted (map size_blob (snapshots (calls_since s0 (run cfg s0 es))))"
    using cs(2) e by simp
  have d: "\<not> speechDetectedRef (run cfg s0 es)
             \<longrightarrow> snapshots (calls_since s0 (run cfg s0 es)) = []"
    using cs(3) e by auto
  from a b c d show ?thesis by blast
qed

text \<open>The theorem at the default session: a chunk before speech, one after, and a third.\<close>

theorem chunk_snapshots_witness:
  "session_started (effective_config None) 0 default_session
   \<and> well_timed (effective_config None) default_session
        [DataAvailable ''audio/webm'' (Blob [1] []), Tick 100 0.5,
         DataAvailable ''audio/webm'' (Blob [2, 3] [])]
   \<and> calls (run (effective_config None) default_session
        ([DataAvailable ''audio/webm'' (Blob [1] []), Tick 100 0.5,
          DataAvailable ''audio/webm'' (Blob [2, 3] [])]
         @ [DataAvailable ''audio/webm'' (Blob [4] [])]))
     = [OnRecordingChunk (Blob [1, 2, 3] ''audio/webm''),
        OnRecordingChunk (Blob [1, 2, 3, 4] ''audio/webm'')]"
proof -
  let ?es = "[DataAvailable ''audio/webm'' (Blob [1] []), Tick 100 0.5,
              DataAvailable ''audio/webm'' (Blob [2, 3] [])]"
  have h1: "session_started (effective_config None) 0 default_session"
    by (rule default_session_started)
  have h2: "well_timed (effective_config None) default_session ?es"
    by (simp add: session_eval)
  have r: "run (effective_config None) default_session ?es
     = default_session\<lparr> chunksRef := [Blob [1] [], Blob [2, 3] []],
         speechDetectedRef := True, speechStartedAtRef := 100, lastVoiceAtRef := 100,
         calls := [OnRecordingChunk (Blob [1, 2, 3] ''audio/webm'')] \<rparr>"
    by (simp add: session_eval)
  have sp: "speechDetectedRef (run (effective_config None) default_session ?es)
            \<and> size_blob (Blob [4] []) > 0"
    unfolding r by (simp add: size_blob_def)
  have "calls (run (effective_config None) default_session
            (?es @ [DataAvailable ''audio/webm'' (Blob [4] [])]))
     = calls (run (effective_config None) default_session ?es) @
         [OnRecordingChunk (Blob (concat (map blob_bytes
             (delivered (?es @ [DataAvailable ''audio/webm'' (Blob [4] [])]))))
           (mime_or_default ''audio/webm''))]"
    using chunk_snapshots [OF h1 h2, THEN conjunct1, THEN spec, THEN spec, THEN mp, OF sp] .
  then have "calls (run (effective_config None) default_session
            (?es @ [DataAvailable ''audio/webm'' (Blob [4] [])]))
     = [OnRecordingChunk (Blob [1, 2, 3] ''audio/webm''),
        OnRecordingChunk (Blob [1, 2, 3, 4] ''audio/webm'')]"
    unfolding r by (simp add: mime_or_default_def)
  with h1 h2 show ?thesis by blast
qed

text \<open>
  Claim C8, as stated: every chunk that arrives while speech has been detected makes a
  call of \<^verbatim>\<open>onRecordingChunk\<close>. It fails for a chunk without bytes: the handler tests
  \<^verbatim>\<open>event.data.size > 0\<close> and calls nothing.
\<close>

theorem empty_chunk_no_snapshot:
  "speechDetectedRef (run (effective_config None) default_session [Tick 100 0.5])
   \<and> calls (run (effective_config None) default_session
        [Tick 100 0.5, DataAvailable ''audio/webm'' (Blob [] [])]) = []"
  by (simp add: session_eval)

subsection \<open>The decisions depend on the samples only\<close>

text \<open>The views of a run are those of the run of its samples alone, from any state with
  the same view.\<close>

lemma vad_samples_only:
  assumes "vad_view s = vad_view t" and "\<forall>e\<in>set es. is_sample_or_data e"
  shows "vad_trace cfg s es = vad_trace cfg t (as_ticks (ticks_of es))
     \<and> vad_view (run cfg s es) = vad_view (run cfg t (as_ticks (ticks_of es)))"
  using assms
proof (induction es arbitrary: s t)
  case Nil
  then show ?case by simp
next
  case (Cons e es)
  have sd: "\<forall>e\<in>set es. is_sample_or_data e" using Cons.prems(2) by simp
  show ?case
  proof (cases e)
    case (Tick now rms)
    have v: "vad_view (step cfg s (Tick now rms)) = vad_view (step cfg t (Tick now rms))"
      using vad_tick_cong[OF Cons.prems(1), of cfg rms now] by simp
    from Cons.IH[OF v sd] v show ?thesis unfolding Tick by (simp del: step.simps)
  next
    case (DataAvailable m d)
    have v: "vad_view (step cfg s (DataAvailable m d)) = vad_view t"
      using Cons.prems(1) by (simp add: data_view)
    from Cons.IH[OF v sd] show ?thesis unfolding DataAvailable by (simp del: step.simps)
  next
    case (StopEvent m)
    with Cons.prems(2) show ?thesis by simp
  next
    case (CallStop p)
    with Cons.prems(2) show ?thesis by simp
  qed
qed

lemma started_view:
  "session_started cfg t0 s \<Longrightarrow> session_started cfg t0 t \<Longrightarrow> vad_view s = vad_view t"
  by (simp add: session_started_def vad_view_def)

text \<open>
  Claim C4, amended. Take two sessions that have just started at the same time, under the
  same configuration, and two runs of ticks and data with the same samples in the same
  order; the chunks may differ. After each tick the two runs agree on whether the
  recorder still records (the stop decision), on the speech-detected flag, and on the
  times of speech start, last voice and session start. When the two runs also agree on
  whether any chunk with bytes arrived, they agree on whether the final blob is present.
\<close>

theorem vad_deterministic:
  assumes "session_started cfg t0 s" and "session_started cfg t0 t"
    and "\<forall>e\<in>set es. is_sample_or_data e" and "\<forall>e\<in>set fs. is_sample_or_data e"
    and "ticks_of es = ticks_of fs"
  shows "vad_trace cfg s es = vad_trace cfg t fs
     \<and> vad_view (run cfg s es) = vad_view (run cfg t fs)
     \<and> ((collected es = []) = (collected fs = []) \<longrightarrow>
          map (\<lambda>b. b = None)
            (completions (calls_since (run cfg s es) (run cfg s (es @ [StopEvent m]))))
          = map (\<lambda>b. b = None)
              (completions (calls_since (run cfg t fs) (run cfg t (fs @ [StopEvent m'])))))"
proof -
  have v: "vad_view s = vad_view t" using assms(1,2) by (rule started_view)
  have a: "vad_trace cfg s es = vad_trace cfg t fs"
    and b: "vad_view (run cfg s es) = vad_view (run cfg t fs)"
    using vad_samples_only[OF v assms(3), of cfg] vad_samples_only[OF refl assms(4), of cfg t]
      assms(5) by simp_all
  have cs: "chunksRef s = []" and ct: "chunksRef t = []"
    using assms(1,2) by (simp_all add: session_started_def)
  note inv_s = run_session[OF sample_or_data_well_timed[OF assms(3)], of cfg s]
  note inv_t = run_session[OF sample_or_data_well_timed[OF assms(4)], of cfg t]
  have sp: "speechDetectedRef (run cfg s es) = speechDetectedRef (run cfg t fs)"
    using b by (simp add: vad_view_def)
  have f_s: "(final_result m (run cfg s es) = None)
      = (\<not> (speechDetectedRef (run cfg s es) \<and> collected es \<noteq> []))"
    using inv_s cs by (simp add: final_result_def)
  have f_t: "(final_result m' (run cfg t fs) = None)
      = (\<not> (speechDetectedRef (run cfg t fs) \<and> collected fs \<noteq> []))"
    using inv_t ct by (simp add: final_result_def)
  have c1: "completions (calls_since (run cfg s es) (run cfg s (es @ [StopEvent m])))
       = [final_result m (run cfg s es)]"
    using completions_stop_event[of "run cfg s es" cfg m] by (simp only: run_snoc)
  have c2: "completions (calls_since (run cfg t fs) (run cfg t (fs @ [StopEvent m'])))
       = [final_result m' (run cfg t fs)]"
    using completions_stop_event[of "run cfg t fs" cfg m'] by (simp only: run_snoc)
  have c: "(collected es = []) = (collected fs = []) \<longrightarrow>
          map (\<lambda>b. b = None)
            (completions (calls_since (run cfg s es) (run cfg s (es @ [StopEvent m]))))
          = map (\<lambda>b. b = None)
              (completions (calls_since (run cfg t fs) (run cfg t (fs @ [StopEvent m']))))"
    unfolding c1 c2 using f_s f_t sp by auto
  from a b c show ?thesis by blast
qed

text \<open>The theorem at two runs of the default session with different chunks.\<close>

theorem vad_deterministic_witness:
  "session_started (effective_config None) 0 default_session
   \<and> ticks_of [Tick 100 0.5, DataAvailable ''audio/webm'' (Blob [1] []), Tick 12000 0]
       = ticks_of [DataAvailable ''audio/webm'' (Blob [2] []), Tick 100 0.5, Tick 12000 0]
   \<and> vad_trace (effective_config None) default_session
        [Tick 100 0.5, DataAvailable ''audio/webm'' (Blob [1] []), Tick 12000 0]
     = vad_trace (effective_config None) default_session
        [DataAvailable ''audio/webm'' (Blob [2] []), Tick 100 0.5, Tick 12000 0]
   \<and> vad_view (run (effective_config None) default_session
        [Tick 100 0.5, DataAvailable ''audio/webm'' (Blob [1] []), Tick 12000 0])
     = vad_view (run (effective_config None) default_session
        [DataAvailable ''audio/webm'' (Blob [2] []), Tick 100 0.5, Tick 12000 0])"
proof -
  let ?es = "[Tick 100 0.5, DataAvailable ''audio/webm'' (Blob [1] []), Tick 12000 0]"
  let ?fs = "[DataAvailable ''audio/webm'' (Blob [2] []), Tick 100 0.5, Tick 12000 0]"
  have h1: "session_started (effective_config None) 0 default_session"
    by (rule default_session_started)
  have h3: "\<forall>e\<in>set ?es. is_sample_or_data e" by simp
  have h4: "\<forall>e\<in>set ?fs. is_sample_or_data e" by simp
  have h5: "ticks_of ?es = ticks_of ?fs" by simp
  from h1 h5 vad_deterministic [OF h1 h1 h3 h4 h5]
  show ?thesis by blast
qed

text \<open>
  Claim C4, as stated: two runs over the same samples agree on the presence of the final
  blob. It fails for two runs with the same samples of which only one receives a chunk
  with bytes: the first ends with a blob, the second without.
\<close>

theorem same_samples_different_blob:
  "ticks_of [Tick 100 0.5, DataAvailable ''audio/webm'' (Blob [1] []), Tick 12000 0]
     = ticks_of [Tick 100 0.5, Tick 12000 0]
   \<and> completions (calls (run (effective_config None) default_session
        [Tick 100 0.5, DataAvailable ''audio/webm'' (Blob [1] []), Tick 12000 0,
         StopEvent ''audio/webm'']))
      = [Some (Blob [1] ''audio/webm'')]
   \<and> completions (calls (run (effective_config None) default_session
        [Tick 100 0.5, Tick 12000 0, StopEvent ''audio/webm'']))
      = [None]"
  by (simp add: session_eval)

end
